theory Spec2Isabelle
  imports Complex_Main "HOL-Library.Word"
begin

section \<open>The expense tracker of \<^verbatim>\<open>src/App.js\<close>\<close>

text \<open>
  \<^verbatim>\<open>App\<close> is one React component with three pieces of state (\<^verbatim>\<open>expenses\<close>,
  \<^verbatim>\<open>formData\<close>, \<^verbatim>\<open>editingId\<close>), four event handlers and two effects that load and
  save the list through \<^verbatim>\<open>localStorage\<close>. Every handler runs to completion on the
  state of the render it was created in, so a handler is a function from the state
  (and what the browser supplies: the clock, the answer to a confirm dialog) to the
  next state.
\<close>

subsection \<open>Data\<close>

text \<open>
  A JavaScript string is a sequence of 16-bit code units. The three form fields are
  the \<^verbatim>\<open>value\<close>s of \<^verbatim>\<open>input\<close> elements, which are always strings; an id is
  the integer \<^verbatim>\<open>Date.now()\<close> returned when the record was created.
\<close>

type_synonym jsstring = "16 word list"

text \<open>String literals: the code units of an ASCII text.\<close>

definition js :: "string \<Rightarrow> jsstring" where
  "js s = map of_char s"

record form_data =
  amount :: jsstring
  date :: jsstring
  "note" :: jsstring

text \<open>
  An expense is \<^verbatim>\<open>{ id: Date.now(), ...formData }\<close>: the form's three fields and
  an id. The field is called \<open>id'\<close> here, \<open>id\<close> being the identity function of HOL.
\<close>

record expense = form_data +
  id' :: int

record app_state =
  expenses :: "expense list"
  formData :: form_data
  editingId :: "int option"

text \<open>\<^verbatim>\<open>const INITIAL_FORM_STATE = { amount: '', date: '', note: '' }\<close>\<close>

definition INITIAL_FORM_STATE :: form_data where
  "INITIAL_FORM_STATE = \<lparr>amount = [], date = [], note = []\<rparr>"

text \<open>
  The state of the first render: \<^verbatim>\<open>useState([])\<close>, \<^verbatim>\<open>useState(INITIAL_FORM_STATE)\<close>,
  \<^verbatim>\<open>useState(null)\<close>.
\<close>

definition initial_state :: app_state where
  "initial_state = \<lparr>expenses = [], formData = INITIAL_FORM_STATE, editingId = None\<rparr>"

subsection \<open>Event handlers\<close>

text \<open>
  \<^verbatim>\<open>handleInputChange\<close> stores \<^verbatim>\<open>e.target.value\<close> under the computed key
  \<^verbatim>\<open>e.target.name\<close>; the form has three inputs, named \<^verbatim>\<open>amount\<close>, \<^verbatim>\<open>date\<close>
  and \<^verbatim>\<open>note\<close>.
\<close>

datatype input_name = Amount | Date | Note

fun handleInputChange :: "input_name \<Rightarrow> jsstring \<Rightarrow> app_state \<Rightarrow> app_state" where
  "handleInputChange Amount v s = s\<lparr>formData := (formData s)\<lparr>amount := v\<rparr>\<rparr>"
| "handleInputChange Date v s = s\<lparr>formData := (formData s)\<lparr>date := v\<rparr>\<rparr>"
| "handleInputChange Note v s = s\<lparr>formData := (formData s)\<lparr>note := v\<rparr>\<rparr>"

text \<open>
  \<^verbatim>\<open>resetForm\<close>: \<^verbatim>\<open>setFormData(INITIAL_FORM_STATE); setEditingId(null)\<close>. It is
  also the handler of the Cancel button.
\<close>

definition resetForm :: "app_state \<Rightarrow> app_state" where
  "resetForm s = s\<lparr>formData := INITIAL_FORM_STATE, editingId := None\<rparr>"

text \<open>
  \<^verbatim>\<open>handleFormSubmit\<close>. A string is falsy exactly when it is empty, so the guard
  \<^verbatim>\<open>!formData.amount || !formData.date || !formData.note\<close> tests the three fields for
  the empty string; then the handler calls \<^verbatim>\<open>alert\<close> and returns, and the model
  returns the message together with the state. Otherwise no alert is shown and
  \<^item> when \<^verbatim>\<open>editingId !== null\<close>, \<^verbatim>\<open>expenses.map\<close> replaces every expense whose
    id is \<^verbatim>\<open>editingId\<close> by \<^verbatim>\<open>{ ...expense, ...formData }\<close>, the expense with the
    form's three fields written over its own;
  \<^item> else \<^verbatim>\<open>[newExpense, ...expenses]\<close> puts \<^verbatim>\<open>{ id: Date.now(), ...formData }\<close> in
    front;
  and \<^verbatim>\<open>resetForm()\<close> ends the handler. The first argument is the value of
  \<^verbatim>\<open>Date.now()\<close>.
\<close>

definition spread_formData :: "expense \<Rightarrow> form_data \<Rightarrow> expense" where
  "spread_formData expense fd = expense\<lparr>amount := amount fd, date := date fd, note := note fd\<rparr>"

definition newExpense :: "int \<Rightarrow> form_data \<Rightarrow> expense" where
  "newExpense now fd = \<lparr>amount = amount fd, date = date fd, note = note fd, id' = now\<rparr>"

definition handleFormSubmit :: "int \<Rightarrow> app_state \<Rightarrow> string option \<times> app_state" where
  "handleFormSubmit now s =
     (if amount (formData s) = [] \<or> date (formData s) = [] \<or> note (formData s) = []
      then (Some ''Please fill out all fields.'', s)
      else
        let isEditing = (editingId s \<noteq> None);
            s' = (if isEditing
                  then s\<lparr>expenses :=
                         map (\<lambda>expense. if Some (id' expense) = editingId s
                                         then spread_formData expense (formData s)
                                         else expense)
                             (expenses s)\<rparr>
                  else s\<lparr>expenses := newExpense now (formData s) # expenses s\<rparr>)
        in (None, resetForm s'))"

text \<open>\<^verbatim>\<open>handleEditClick(expense)\<close>, bound to the Edit button of a listed expense.\<close>

definition handleEditClick :: "expense \<Rightarrow> app_state \<Rightarrow> app_state" where
  "handleEditClick expense s =
     s\<lparr>editingId := Some (id' expense),
       formData := \<lparr>amount = amount expense, date = date expense, note = note expense\<rparr>\<rparr>"

text \<open>
  \<^verbatim>\<open>handleDeleteClick(id)\<close>; the first argument is the answer of
  \<^verbatim>\<open>window.confirm\<close>. Nothing but \<^verbatim>\<open>expenses\<close> is set.
\<close>

definition handleDeleteClick :: "bool \<Rightarrow> int \<Rightarrow> app_state \<Rightarrow> app_state" where
  "handleDeleteClick confirmed i s =
     (if confirmed
      then s\<lparr>expenses := filter (\<lambda>expense. id' expense \<noteq> i) (expenses s)\<rparr>
      else s)"

subsection \<open>The operations of the store, as the interface drives the handlers\<close>

text \<open>
  \<open>Submit\<close> with a draft: the user types the three values into the inputs and
  submits the form at time \<open>now\<close>. \<open>Delete\<close>: the Delete button, confirmed.
  \<open>BeginEdit\<close>: the Edit button of the first listed expense with that id (the
  list renders one button per expense; an id that is not listed has no button).
  \<open>CancelEdit\<close>: the Cancel button.
\<close>

definition fill_form :: "form_data \<Rightarrow> app_state \<Rightarrow> app_state" where
  "fill_form d s =
     handleInputChange Note (note d)
       (handleInputChange Date (date d)
         (handleInputChange Amount (amount d) s))"

datatype operation =
    Submit int form_data
  | Delete int
  | BeginEdit int
  | CancelEdit

fun apply_operation :: "operation \<Rightarrow> app_state \<Rightarrow> app_state" where
  "apply_operation (Submit now d) s = snd (handleFormSubmit now (fill_form d s))"
| "apply_operation (Delete i) s = handleDeleteClick True i s"
| "apply_operation (BeginEdit i) s =
     (case find (\<lambda>expense. id' expense = i) (expenses s) of
        None \<Rightarrow> s
      | Some expense \<Rightarrow> handleEditClick expense s)"
| "apply_operation CancelEdit s = resetForm s"

fun run :: "operation list \<Rightarrow> app_state \<Rightarrow> app_state" where
  "run [] s = s"
| "run (op # ops) s = run ops (apply_operation op s)"

text \<open>The clock readings of the submissions of a sequence, in order.\<close>

fun submit_times :: "operation list \<Rightarrow> int list" where
  "submit_times [] = []"
| "submit_times (Submit now d # ops) = now # submit_times ops"
| "submit_times (_ # ops) = submit_times ops"

definition valid_draft :: "form_data \<Rightarrow> bool" where
  "valid_draft d \<longleftrightarrow> amount d \<noteq> [] \<and> date d \<noteq> [] \<and> note d \<noteq> []"

section \<open>Persistence: the two effects\<close>

text \<open>
  The effects call \<^verbatim>\<open>JSON.stringify\<close>, \<^verbatim>\<open>JSON.parse\<close> and \<^verbatim>\<open>localStorage\<close>,
  which the browser provides. They are modelled after ECMA-262 (sections
  \<^verbatim>\<open>JSON.stringify\<close>, \<^verbatim>\<open>QuoteJSONString\<close>, \<^verbatim>\<open>JSON.parse\<close> and the JSON grammar),
  on code units. What the model leaves out:
  \<^item> a number is its exact value, a rational: rounding to binary64, the sign of zero
    and overflow are not modelled. An id is \<^verbatim>\<open>Date.now()\<close>, an integer of magnitude
    below \<open>8.64 * 10^15\<close>, which a JavaScript number holds exactly and prints in
    plain decimal digits;
  \<^item> resource limits (storage quota apart, which is a parameter of the save effect).
\<close>

subsection \<open>What \<^verbatim>\<open>JSON.stringify(expenses)\<close> writes\<close>

text \<open>
  \<^verbatim>\<open>Number::toString\<close> on an integer: its decimal digits, after a minus sign when
  it is negative.
\<close>

definition digit_char :: "nat \<Rightarrow> 16 word" where
  "digit_char d = of_nat (48 + d)"

fun nat_digits :: "nat \<Rightarrow> jsstring" where
  "nat_digits n = (if n < 10 then [digit_char n] else nat_digits (n div 10) @ [digit_char (n mod 10)])"

declare nat_digits.simps [simp del]

definition Number_toString :: "int \<Rightarrow> jsstring" where
  "Number_toString i = (if i < 0 then 0x2D # nat_digits (nat (- i)) else nat_digits (nat i))"

text \<open>
  \<^verbatim>\<open>UnicodeEscape\<close>: backslash, \<^verbatim>\<open>u\<close> and four lower-case hexadecimal digits.
\<close>

definition hex_char :: "nat \<Rightarrow> 16 word" where
  "hex_char d = (if d < 10 then of_nat (48 + d) else of_nat (87 + d))"

definition UnicodeEscape :: "16 word \<Rightarrow> jsstring" where
  "UnicodeEscape c =
     [0x5C, 0x75, hex_char (unat c div 4096), hex_char (unat c div 256 mod 16),
      hex_char (unat c div 16 mod 16), hex_char (unat c mod 16)]"

definition is_leading_surrogate :: "16 word \<Rightarrow> bool" where
  "is_leading_surrogate c \<longleftrightarrow> 0xD800 \<le> c \<and> c \<le> 0xDBFF"

definition is_trailing_surrogate :: "16 word \<Rightarrow> bool" where
  "is_trailing_surrogate c \<longleftrightarrow> 0xDC00 \<le> c \<and> c \<le> 0xDFFF"

text \<open>
  \<^verbatim>\<open>QuoteJSONString\<close> walks the code points of the string. Backspace, tab, line
  feed, form feed, carriage return, the double quote and the backslash have a
  two-character escape; any other code unit below \<open>0x20\<close> and a surrogate that is not
  part of a pair are written by \<^verbatim>\<open>UnicodeEscape\<close>; everything else, a surrogate
  pair included, is copied.
\<close>

function quote_code_units :: "jsstring \<Rightarrow> jsstring" where
  "quote_code_units [] = []"
| "quote_code_units (c # cs) =
     (if c = 0x08 then [0x5C, 0x62] @ quote_code_units cs
      else if c = 0x09 then [0x5C, 0x74] @ quote_code_units cs
      else if c = 0x0A then [0x5C, 0x6E] @ quote_code_units cs
      else if c = 0x0C then [0x5C, 0x66] @ quote_code_units cs
      else if c = 0x0D then [0x5C, 0x72] @ quote_code_units cs
      else if c = 0x22 then [0x5C, 0x22] @ quote_code_units cs
      else if c = 0x5C then [0x5C, 0x5C] @ quote_code_units cs
      else if c < 0x20 then UnicodeEscape c @ quote_code_units cs
      else if is_leading_surrogate c then
        (case cs of
           [] \<Rightarrow> UnicodeEscape c
         | d # ds \<Rightarrow>
             if is_trailing_surrogate d then c # d # quote_code_units ds
             else UnicodeEscape c @ quote_code_units cs)
      else if is_trailing_surrogate c then UnicodeEscape c @ quote_code_units cs
      else c # quote_code_units cs)"
  by pat_completeness auto
termination
  by (relation "measure length") simp_all

definition QuoteJSONString :: "jsstring \<Rightarrow> jsstring" where
  "QuoteJSONString s = 0x22 # quote_code_units s @ [0x22]"

text \<open>
  \<^verbatim>\<open>SerializeJSONObject\<close> and \<^verbatim>\<open>SerializeJSONArray\<close> without indentation: the
  members, each a quoted key, a colon and the value, between braces, and the elements
  between brackets, separated by commas. The keys of an expense are enumerated in the
  order of their creation: \<^verbatim>\<open>id\<close> first, then the keys of \<^verbatim>\<open>formData\<close>, which
  are those of \<^verbatim>\<open>INITIAL_FORM_STATE\<close>; \<^verbatim>\<open>{ ...expense, ...formData }\<close> keeps
  that order.
\<close>

fun join_with :: "'a \<Rightarrow> 'a list list \<Rightarrow> 'a list" where
  "join_with sep [] = []"
| "join_with sep [x] = x"
| "join_with sep (x # y # ys) = x @ sep # join_with sep (y # ys)"

definition SerializeJSONProperty_id :: "int \<Rightarrow> jsstring" where
  "SerializeJSONProperty_id i = QuoteJSONString (js ''id'') @ 0x3A # Number_toString i"

definition SerializeJSONProperty :: "string \<Rightarrow> jsstring \<Rightarrow> jsstring" where
  "SerializeJSONProperty key s = QuoteJSONString (js key) @ 0x3A # QuoteJSONString s"

definition SerializeJSONObject :: "expense \<Rightarrow> jsstring" where
  "SerializeJSONObject expense =
     0x7B # join_with 0x2C
       [SerializeJSONProperty_id (id' expense),
        SerializeJSONProperty ''amount'' (amount expense),
        SerializeJSONProperty ''date'' (date expense),
        SerializeJSONProperty ''note'' (note expense)] @ [0x7D]"

definition JSON_stringify :: "expense list \<Rightarrow> jsstring" where
  "JSON_stringify xs = 0x5B # join_with 0x2C (map SerializeJSONObject xs) @ [0x5D]"

subsection \<open>What \<^verbatim>\<open>JSON.parse\<close> reads\<close>

text \<open>
  \<^verbatim>\<open>JSON.parse\<close> returns any JSON value, or throws \<^verbatim>\<open>SyntaxError\<close> (\<open>None\<close>
  below). An object is the list of its properties in enumeration order.
\<close>

datatype jsval =
    JNull
  | JBool bool
  | JNum rat
  | JStr jsstring
  | JArr "jsval list"
  | JObj "(jsstring \<times> jsval) list"

type_synonym properties = "(jsstring \<times> jsval) list"

datatype token =
    LBRACKET | RBRACKET | LBRACE | RBRACE | COLON | COMMA
  | TString jsstring | TNumber rat | TTrue | TFalse | TNull

paragraph \<open>Tokens\<close>

text \<open>White space is tab, line feed, carriage return and space.\<close>

definition is_whitespace :: "16 word \<Rightarrow> bool" where
  "is_whitespace c \<longleftrightarrow> c = 0x09 \<or> c = 0x0A \<or> c = 0x0D \<or> c = 0x20"

definition is_digit :: "16 word \<Rightarrow> bool" where
  "is_digit c \<longleftrightarrow> 0x30 \<le> c \<and> c \<le> 0x39"

definition digit_val :: "16 word \<Rightarrow> nat" where
  "digit_val c = unat c - 48"

definition hex_val :: "16 word \<Rightarrow> nat option" where
  "hex_val c =
     (if 0x30 \<le> c \<and> c \<le> 0x39 then Some (unat c - 48)
      else if 0x61 \<le> c \<and> c \<le> 0x66 then Some (unat c - 87)
      else if 0x41 \<le> c \<and> c \<le> 0x46 then Some (unat c - 55)
      else None)"

definition hex4 :: "16 word \<Rightarrow> 16 word \<Rightarrow> 16 word \<Rightarrow> 16 word \<Rightarrow> 16 word option" where
  "hex4 h1 h2 h3 h4 =
     (case (hex_val h1, hex_val h2, hex_val h3, hex_val h4) of
        (Some a, Some b, Some c, Some d) \<Rightarrow> Some (of_nat (((a * 16 + b) * 16 + c) * 16 + d))
      | _ \<Rightarrow> None)"

text \<open>
  The character after a backslash, \<^verbatim>\<open>u\<close> apart: the double quote, the backslash,
  the slash and the letters \<^verbatim>\<open>b f n r t\<close>.
\<close>

definition unescape :: "16 word \<Rightarrow> 16 word option" where
  "unescape e =
     (if e = 0x22 then Some 0x22
      else if e = 0x5C then Some 0x5C
      else if e = 0x2F then Some 0x2F
      else if e = 0x62 then Some 0x08
      else if e = 0x66 then Some 0x0C
      else if e = 0x6E then Some 0x0A
      else if e = 0x72 then Some 0x0D
      else if e = 0x74 then Some 0x09
      else None)"

definition cons_result :: "16 word \<Rightarrow> (jsstring \<times> jsstring) option \<Rightarrow> (jsstring \<times> jsstring) option" where
  "cons_result u r = (case r of None \<Rightarrow> None | Some (s, rest) \<Rightarrow> Some (u # s, rest))"

text \<open>
  A string, read from behind its opening quote: the code units it denotes and the
  text that follows its closing quote. A code unit below \<open>0x20\<close>, an unknown escape
  and the end of the text are errors.
\<close>

function lex_string :: "jsstring \<Rightarrow> (jsstring \<times> jsstring) option" where
  "lex_string [] = None"
| "lex_string (c # cs) =
     (if c = 0x22 then Some ([], cs)
      else if c = 0x5C then
        (case cs of
           [] \<Rightarrow> None
         | e # es \<Rightarrow>
             if e = 0x75 then
               (case es of
                  h1 # h2 # h3 # h4 # rest \<Rightarrow>
                    (case hex4 h1 h2 h3 h4 of
                       None \<Rightarrow> None
                     | Some u \<Rightarrow> cons_result u (lex_string rest))
                | _ \<Rightarrow> None)
             else
               (case unescape e of
                  None \<Rightarrow> None
                | Some u \<Rightarrow> cons_result u (lex_string es)))
      else if c < 0x20 then None
      else cons_result c (lex_string cs))"
  by pat_completeness auto
termination
  by (relation "measure length") simp_all

text \<open>
  A number: an optional minus sign, an integer part (\<^verbatim>\<open>0\<close>, or digits that do not
  start with \<^verbatim>\<open>0\<close>), an optional fraction (a point and digits) and an optional
  exponent (\<^verbatim>\<open>e\<close> or \<^verbatim>\<open>E\<close>, an optional sign and digits).
\<close>

definition digits_val :: "jsstring \<Rightarrow> nat" where
  "digits_val ds = foldl (\<lambda>n d. 10 * n + digit_val d) 0 ds"

definition lex_minus :: "jsstring \<Rightarrow> bool \<times> jsstring" where
  "lex_minus cs =
     (case cs of
        [] \<Rightarrow> (False, cs)
      | s # r \<Rightarrow> if s = 0x2D then (True, r) else (False, cs))"

definition lex_int :: "jsstring \<Rightarrow> (nat \<times> jsstring) option" where
  "lex_int cs =
     (case cs of
        [] \<Rightarrow> None
      | d # r \<Rightarrow>
          if d = 0x30 then Some (0, r)
          else if is_digit d then Some (digits_val (takeWhile is_digit cs), dropWhile is_digit cs)
          else None)"

definition lex_frac :: "jsstring \<Rightarrow> (rat \<times> jsstring) option" where
  "lex_frac cs =
     (case cs of
        [] \<Rightarrow> Some (0, cs)
      | p # r \<Rightarrow>
          if p = 0x2E then
            (let ds = takeWhile is_digit r
             in if ds = [] then None
                else Some (of_nat (digits_val ds) / 10 ^ length ds, dropWhile is_digit r))
          else Some (0, cs))"

definition lex_sign :: "jsstring \<Rightarrow> bool \<times> jsstring" where
  "lex_sign cs =
     (case cs of
        [] \<Rightarrow> (False, cs)
      | s # r \<Rightarrow> if s = 0x2D then (True, r) else if s = 0x2B then (False, r) else (False, cs))"

definition lex_exp :: "jsstring \<Rightarrow> (int \<times> jsstring) option" where
  "lex_exp cs =
     (case cs of
        [] \<Rightarrow> Some (0, cs)
      | e # r \<Rightarrow>
          if e = 0x65 \<or> e = 0x45 then
            (let (neg, r') = lex_sign r; ds = takeWhile is_digit r'
             in if ds = [] then None
                else Some (if neg then - int (digits_val ds) else int (digits_val ds),
                           dropWhile is_digit r'))
          else Some (0, cs))"

definition number_value :: "bool \<Rightarrow> nat \<Rightarrow> rat \<Rightarrow> int \<Rightarrow> rat" where
  "number_value neg i f e =
     (if neg then - 1 else 1) * (of_nat i + f) *
     (if 0 \<le> e then 10 ^ nat e else 1 / 10 ^ nat (- e))"

definition lex_number :: "jsstring \<Rightarrow> (rat \<times> jsstring) option" where
  "lex_number cs =
     (let (neg, cs1) = lex_minus cs
      in case lex_int cs1 of
           None \<Rightarrow> None
         | Some (i, cs2) \<Rightarrow>
             (case lex_frac cs2 of
                None \<Rightarrow> None
              | Some (f, cs3) \<Rightarrow>
                  (case lex_exp cs3 of
                     None \<Rightarrow> None
                   | Some (e, cs4) \<Rightarrow> Some (number_value neg i f e, cs4))))"

fun strip_prefix :: "jsstring \<Rightarrow> jsstring \<Rightarrow> jsstring option" where
  "strip_prefix [] cs = Some cs"
| "strip_prefix (p # ps) [] = None"
| "strip_prefix (p # ps) (c # cs) = (if p = c then strip_prefix ps cs else None)"

text \<open>Each of these readers returns a rest that is no longer than its input.\<close>

lemma lex_string_length: "lex_string cs = Some (s, rest) \<Longrightarrow> length rest \<le> length cs"
proof (induction cs arbitrary: s rest rule: lex_string.induct)
  case 1
  then show ?case by simp
next
  case (2 c cs)
  then show ?case
    by (auto simp: cons_result_def split: if_splits list.splits option.splits) fastforce+
qed

lemma lex_int_length: "lex_int cs = Some (i, rest) \<Longrightarrow> length rest < length cs"
  by (auto simp: lex_int_def split: list.splits if_splits
      intro: le_imp_less_Suc length_dropWhile_le)

lemma lex_frac_length: "lex_frac cs = Some (f, rest) \<Longrightarrow> length rest \<le> length cs"
  by (auto simp: lex_frac_def Let_def split: list.splits if_splits
      intro: le_SucI length_dropWhile_le)

lemma lex_sign_length: "length (snd (lex_sign cs)) \<le> length cs"
  by (simp add: lex_sign_def split: list.splits)

lemma lex_exp_length: "lex_exp cs = Some (e, rest) \<Longrightarrow> length rest \<le> length cs"
proof (cases cs)
  case Nil
  then show "lex_exp cs = Some (e, rest) \<Longrightarrow> ?thesis" by (simp add: lex_exp_def)
next
  case (Cons x r)
  assume a: "lex_exp cs = Some (e, rest)"
  show ?thesis
  proof (cases "x = 0x65 \<or> x = 0x45")
    case True
    with a Cons have "rest = dropWhile is_digit (snd (lex_sign r))"
      by (auto simp: lex_exp_def Let_def split: prod.splits if_splits)
    then have "length rest \<le> length (snd (lex_sign r))"
      by (simp add: length_dropWhile_le)
    also have "\<dots> \<le> length r" by (rule lex_sign_length)
    finally show ?thesis using Cons by simp
  next
    case False
    with a Cons show ?thesis by (auto simp: lex_exp_def)
  qed
qed

lemma lex_minus_length: "length (snd (lex_minus cs)) \<le> length cs"
  by (simp add: lex_minus_def split: list.splits)

lemma lex_number_length:
  assumes "lex_number cs = Some (v, rest)"
  shows "length rest < length cs"
proof -
  from assms obtain i cs2 f cs3 e where
    1: "lex_int (snd (lex_minus cs)) = Some (i, cs2)" and
    2: "lex_frac cs2 = Some (f, cs3)" and
    3: "lex_exp cs3 = Some (e, rest)"
    by (auto simp: lex_number_def split: prod.splits option.splits)
  from lex_exp_length [OF 3] lex_frac_length [OF 2] lex_int_length [OF 1] lex_minus_length [of cs]
  show ?thesis by linarith
qed

lemma strip_prefix_length: "strip_prefix ps cs = Some rest \<Longrightarrow> length rest \<le> length cs"
  by (induction ps cs rule: strip_prefix.induct) (auto split: if_splits)

text \<open>
  The tokens of a text, or \<open>None\<close> where no token starts.
\<close>

definition cons_token :: "token \<Rightarrow> token list option \<Rightarrow> token list option" where
  "cons_token t r = (case r of None \<Rightarrow> None | Some ts \<Rightarrow> Some (t # ts))"

function lex :: "jsstring \<Rightarrow> token list option" where
  "lex [] = Some []"
| "lex (c # cs) =
     (if is_whitespace c then lex cs
      else if c = 0x5B then cons_token LBRACKET (lex cs)
      else if c = 0x5D then cons_token RBRACKET (lex cs)
      else if c = 0x7B then cons_token LBRACE (lex cs)
      else if c = 0x7D then cons_token RBRACE (lex cs)
      else if c = 0x3A then cons_token COLON (lex cs)
      else if c = 0x2C then cons_token COMMA (lex cs)
      else if c = 0x22 then
        (case lex_string cs of
           None \<Rightarrow> None
         | Some (s, rest) \<Rightarrow> cons_token (TString s) (lex rest))
      else if c = 0x2D \<or> is_digit c then
        (case lex_number (c # cs) of
           None \<Rightarrow> None
         | Some (v, rest) \<Rightarrow> cons_token (TNumber v) (lex rest))
      else if c = 0x74 then
        (case strip_prefix (js ''rue'') cs of
           None \<Rightarrow> None
         | Some rest \<Rightarrow> cons_token TTrue (lex rest))
      else if c = 0x66 then
        (case strip_prefix (js ''alse'') cs of
           None \<Rightarrow> None
         | Some rest \<Rightarrow> cons_token TFalse (lex rest))
      else if c = 0x6E then
        (case strip_prefix (js ''ull'') cs of
           None \<Rightarrow> None
         | Some rest \<Rightarrow> cons_token TNull (lex rest))
      else None)"
  by pat_completeness auto
termination
proof (relation "measure length", goal_cases)
  case 1
  show ?case by simp
next
  case (9 c cs x2 s rest)
  then show ?case using lex_string_length [of cs s rest] by simp
next
  case (10 c cs x2 v rest)
  then show ?case using lex_number_length [of "c # cs" v rest] by simp
next
  case (11 c cs rest)
  then show ?case using strip_prefix_length [of "js ''rue''" cs rest] by simp
next
  case (12 c cs rest)
  then show ?case using strip_prefix_length [of "js ''alse''" cs rest] by simp
next
  case (13 c cs rest)
  then show ?case using strip_prefix_length [of "js ''ull''" cs rest] by simp
qed simp_all

paragraph \<open>Values\<close>

text \<open>
  \<^verbatim>\<open>CreateDataProperty\<close> on the object under construction. A key that the object
  has keeps its place and takes the new value; a new key goes behind the others,
  except that array indices (canonical numerals below \<open>2^32 - 1\<close>) are enumerated
  first, in ascending order.
\<close>

definition array_index :: "jsstring \<Rightarrow> nat option" where
  "array_index k =
     (if k \<noteq> [] \<and> list_all is_digit k \<and> (if hd k = 0x30 then length k = 1 else True) \<and>
         digits_val k < 2 ^ 32 - 1
      then Some (digits_val k) else None)"

fun update_property :: "jsstring \<Rightarrow> jsval \<Rightarrow> properties \<Rightarrow> properties" where
  "update_property k v [] = []"
| "update_property k v ((k', v') # ps) =
     (if k' = k then (k, v) # ps else (k', v') # update_property k v ps)"

fun insert_index :: "nat \<Rightarrow> jsstring \<Rightarrow> jsval \<Rightarrow> properties \<Rightarrow> properties" where
  "insert_index i k v [] = [(k, v)]"
| "insert_index i k v ((k', v') # ps) =
     (case array_index k' of
        None \<Rightarrow> (k, v) # (k', v') # ps
      | Some j \<Rightarrow> if j < i then (k', v') # insert_index i k v ps else (k, v) # (k', v') # ps)"

definition CreateDataProperty :: "properties \<Rightarrow> jsstring \<Rightarrow> jsval \<Rightarrow> properties" where
  "CreateDataProperty ps k v =
     (if k \<in> fst ` set ps then update_property k v ps
      else case array_index k of
             None \<Rightarrow> ps @ [(k, v)]
           | Some i \<Rightarrow> insert_index i k v ps)"

text \<open>
  The grammar, read token by token. A frame is an array or an object that waits for
  the value being read; the configuration says what may come next.
\<close>

datatype frame =
    InArray "jsval list"
  | InObject properties jsstring

datatype config =
    Value "frame list"
  | ArrayOpen "frame list"
  | ObjectOpen "frame list"
  | Key properties "frame list"
  | Colon properties jsstring "frame list"
  | After jsval "frame list"

fun step_value :: "frame list \<Rightarrow> token \<Rightarrow> config option" where
  "step_value st (TString s) = Some (After (JStr s) st)"
| "step_value st (TNumber v) = Some (After (JNum v) st)"
| "step_value st TTrue = Some (After (JBool True) st)"
| "step_value st TFalse = Some (After (JBool False) st)"
| "step_value st TNull = Some (After JNull st)"
| "step_value st LBRACKET = Some (ArrayOpen st)"
| "step_value st LBRACE = Some (ObjectOpen st)"
| "step_value st _ = None"

fun step :: "config \<Rightarrow> token \<Rightarrow> config option" where
  "step (Value st) t = step_value st t"
| "step (ArrayOpen st) t =
     (if t = RBRACKET then Some (After (JArr []) st) else step_value (InArray [] # st) t)"
| "step (ObjectOpen st) t =
     (case t of
        RBRACE \<Rightarrow> Some (After (JObj []) st)
      | TString k \<Rightarrow> Some (Colon [] k st)
      | _ \<Rightarrow> None)"
| "step (Key ps st) t = (case t of TString k \<Rightarrow> Some (Colon ps k st) | _ \<Rightarrow> None)"
| "step (Colon ps k st) t = (if t = COLON then Some (Value (InObject ps k # st)) else None)"
| "step (After v []) t = None"
| "step (After v (InArray vs # st)) t =
     (case t of
        COMMA \<Rightarrow> Some (Value (InArray (vs @ [v]) # st))
      | RBRACKET \<Rightarrow> Some (After (JArr (vs @ [v])) st)
      | _ \<Rightarrow> None)"
| "step (After v (InObject ps k # st)) t =
     (case t of
        COMMA \<Rightarrow> Some (Key (CreateDataProperty ps k v) st)
      | RBRACE \<Rightarrow> Some (After (JObj (CreateDataProperty ps k v)) st)
      | _ \<Rightarrow> None)"

fun steps :: "config \<Rightarrow> token list \<Rightarrow> config option" where
  "steps c [] = Some c"
| "steps c (t # ts) = (case step c t of None \<Rightarrow> None | Some c' \<Rightarrow> steps c' ts)"

definition parse_tokens :: "token list \<Rightarrow> jsval option" where
  "parse_tokens ts =
     (case steps (Value []) ts of
        Some (After v []) \<Rightarrow> Some v
      | _ \<Rightarrow> None)"

definition JSON_parse :: "jsstring \<Rightarrow> jsval option" where
  "JSON_parse text = (case lex text of None \<Rightarrow> None | Some ts \<Rightarrow> parse_tokens ts)"

subsection \<open>Collections as JavaScript values\<close>

text \<open>
  The value that an expense list is in the JavaScript heap, and the reading of a
  value as an expense list where it is one: an array of objects with a whole number
  under \<^verbatim>\<open>id\<close> and strings under \<^verbatim>\<open>amount\<close>, \<^verbatim>\<open>date\<close> and \<^verbatim>\<open>note\<close>.
\<close>

definition js_of_expense :: "expense \<Rightarrow> jsval" where
  "js_of_expense expense =
     JObj [(js ''id'', JNum (of_int (id' expense))),
           (js ''amount'', JStr (amount expense)),
           (js ''date'', JStr (date expense)),
           (js ''note'', JStr (note expense))]"

definition js_of_expenses :: "expense list \<Rightarrow> jsval" where
  "js_of_expenses xs = JArr (map js_of_expense xs)"

definition expense_of_js :: "jsval \<Rightarrow> expense option" where
  "expense_of_js v =
     (case v of
        JObj ps \<Rightarrow>
          (case (map_of ps (js ''id''), map_of ps (js ''amount''),
                 map_of ps (js ''date''), map_of ps (js ''note'')) of
             (Some (JNum q), Some (JStr a), Some (JStr d), Some (JStr n)) \<Rightarrow>
               if of_int \<lfloor>q\<rfloor> = q
               then Some \<lparr>amount = a, date = d, note = n, id' = \<lfloor>q\<rfloor>\<rparr>
               else None
           | _ \<Rightarrow> None)
      | _ \<Rightarrow> None)"

definition expenses_of_js :: "jsval \<Rightarrow> expense list option" where
  "expenses_of_js v = (case v of JArr vs \<Rightarrow> those (map expense_of_js vs) | _ \<Rightarrow> None)"

subsection \<open>The effects\<close>

text \<open>
  The load effect, run once after the first render:
  \<^verbatim>\<open>try { const savedExpenses = localStorage.getItem('expenses');\<close>
  \<^verbatim>\<open>      if (savedExpenses) { setExpenses(JSON.parse(savedExpenses)); } }\<close>
  \<^verbatim>\<open>catch (error) { console.error(..., error); }\<close>
  Its first argument is what \<^verbatim>\<open>getItem\<close> does: it throws (storage access denied),
  returns \<^verbatim>\<open>null\<close> or returns the stored string. \<open>load_try\<close> is the \<^verbatim>\<open>try\<close>
  block: the exception thrown, or the value of \<^verbatim>\<open>expenses\<close> after it (\<open>current\<close>
  when \<^verbatim>\<open>setExpenses\<close> is not called; \<^verbatim>\<open>null\<close> and the empty string are falsy).
  The effect returns the value of \<^verbatim>\<open>expenses\<close> and what was logged. The parsed
  value is stored unchecked, whatever JSON value it is.
\<close>

datatype exception = SyntaxError | DOMException

definition load_try :: "exception + jsstring option \<Rightarrow> jsval \<Rightarrow> exception + jsval" where
  "load_try getItem current =
     (case getItem of
        Inl error \<Rightarrow> Inl error
      | Inr savedExpenses \<Rightarrow>
          (case savedExpenses of
             None \<Rightarrow> Inr current
           | Some text \<Rightarrow>
               if text = [] then Inr current
               else (case JSON_parse text of
                       None \<Rightarrow> Inl SyntaxError
                     | Some v \<Rightarrow> Inr v)))"

definition useEffect_load ::
    "exception + jsstring option \<Rightarrow> jsval \<Rightarrow> exception + jsval \<times> exception list" where
  "useEffect_load getItem current =
     (case load_try getItem current of
        Inl error \<Rightarrow> Inr (current, [error])
      | Inr v \<Rightarrow> Inr (v, []))"

text \<open>
  The save effect, run after every render that changed \<^verbatim>\<open>expenses\<close>:
  \<^verbatim>\<open>try { localStorage.setItem('expenses', JSON.stringify(expenses)); }\<close>
  \<^verbatim>\<open>catch (error) { console.error(..., error); }\<close>
  \<open>writable\<close> says whether \<^verbatim>\<open>setItem\<close> succeeds; the result is the stored string
  and what was logged.
\<close>

definition useEffect_save ::
    "bool \<Rightarrow> expense list \<Rightarrow> jsstring option \<Rightarrow> jsstring option \<times> exception list" where
  "useEffect_save writable xs stored =
     (if writable then (Some (JSON_stringify xs), [])
      else (stored, [DOMException]))"

subsection \<open>Notions of the proofs\<close>

text \<open>
  The code units with a two-character escape, and the tokens of a serialized expense.
\<close>

definition named_escape :: "16 word \<Rightarrow> bool" where
  "named_escape c \<longleftrightarrow> c = 0x08 \<or> c = 0x09 \<or> c = 0x0A \<or> c = 0x0C \<or> c = 0x0D \<or> c = 0x22 \<or> c = 0x5C"

definition prepend_tokens :: "token list \<Rightarrow> token list option \<Rightarrow> token list option" where
  "prepend_tokens ts r = (case r of None \<Rightarrow> None | Some us \<Rightarrow> Some (ts @ us))"

definition expense_tokens :: "expense \<Rightarrow> token list" where
  "expense_tokens expense =
     [LBRACE, TString (js ''id''), COLON, TNumber (of_int (id' expense)), COMMA,
      TString (js ''amount''), COLON, TString (amount expense), COMMA,
      TString (js ''date''), COLON, TString (date expense), COMMA,
      TString (js ''note''), COLON, TString (note expense), RBRACE]"

subsection \<open>Example data\<close>

text \<open>
  The drafts of the specification's scenarios, with clock readings of January 2024.
\<close>

definition lunch :: form_data where
  "lunch = \<lparr>amount = js ''12.50'', date = js ''2024-01-01'', note = js ''Lunch''\<rparr>"

definition lunch_15 :: form_data where
  "lunch_15 = \<lparr>amount = js ''15.00'', date = js ''2024-01-01'', note = js ''Lunch''\<rparr>"

definition coffee :: form_data where
  "coffee = \<lparr>amount = js ''3.20'', date = js ''2024-01-02'', note = js ''Coffee''\<rparr>"

definition two_expenses :: "expense list" where
  "two_expenses = [newExpense 1704153600000 coffee, newExpense 1704067200000 lunch]"

definition editing_lunch :: app_state where
  "editing_lunch = \<lparr>expenses = two_expenses, formData = lunch_15, editingId = Some 1704067200000\<rparr>"

text \<open>The state after deleting the expense that is being edited.\<close>

definition edit_of_deleted :: app_state where
  "edit_of_deleted =
     fill_form lunch_15
       (run [Submit 1704067200000 lunch, Submit 1704153600000 coffee,
             BeginEdit 1704067200000, Delete 1704067200000] initial_state)"

text \<open>
  The state after two submissions within one millisecond and a click on Edit, which
  the list offers on both records: the form holds a new amount for the coffee.
\<close>

definition coffee_4 :: form_data where
  "coffee_4 = \<lparr>amount = js ''4.00'', date = js ''2024-01-02'', note = js ''Coffee''\<rparr>"

definition collided_edit :: app_state where
  "collided_edit =
     fill_form coffee_4
       (run [Submit 1704067200000 lunch, Submit 1704067200000 coffee,
             BeginEdit 1704067200000] initial_state)"


section \<open>Properties\<close>

subsection \<open>Auxiliary facts\<close>

lemma id'_spread_formData [simp]: "id' (spread_formData expense fd) = id' expense"
  by (simp add: spread_formData_def)

lemma map_spread_ids:
  "map id' (map (\<lambda>expense. if P expense then spread_formData expense fd else expense) xs) = map id' xs"
  by (induction xs) simp_all

lemma ids_handleFormSubmit:
  "map id' (expenses (snd (handleFormSubmit now s))) = map id' (expenses s) \<or>
   map id' (expenses (snd (handleFormSubmit now s))) = now # map id' (expenses s)"
  by (simp add: handleFormSubmit_def Let_def resetForm_def map_spread_ids newExpense_def)

lemma expenses_fill_form [simp]: "expenses (fill_form d s) = expenses s"
  by (simp add: fill_form_def)

lemma ids_apply_operation:
  "map id' (expenses (apply_operation op s)) = map id' (expenses s) \<or>
   (\<exists>now d. op = Submit now d \<and> map id' (expenses (apply_operation op s)) = now # map id' (expenses s)) \<or>
   (\<exists>i. op = Delete i \<and> map id' (expenses (apply_operation op s)) = filter (\<lambda>j. j \<noteq> i) (map id' (expenses s)))"
proof (cases op)
  case (Submit now d)
  then show ?thesis using ids_handleFormSubmit [of now "fill_form d s"] by auto
next
  case (Delete i)
  then show ?thesis by (simp add: handleDeleteClick_def filter_map comp_def)
next
  case (BeginEdit i)
  then show ?thesis by (simp add: handleEditClick_def split: option.splits)
next
  case CancelEdit
  then show ?thesis by (simp add: resetForm_def)
qed

lemma run_distinct_ids:
  "distinct (map id' (expenses s)) \<Longrightarrow> distinct (submit_times ops) \<Longrightarrow>
   set (map id' (expenses s)) \<inter> set (submit_times ops) = {} \<Longrightarrow>
   distinct (map id' (expenses (run ops s)))"
proof (induction ops arbitrary: s)
  case Nil
  then show ?case by simp
next
  case (Cons op ops)
  let ?s' = "apply_operation op s"
  from ids_apply_operation [of op s]
  have "distinct (map id' (expenses ?s')) \<and> distinct (submit_times ops) \<and>
        set (map id' (expenses ?s')) \<inter> set (submit_times ops) = {}"
  proof (elim disjE exE conjE)
    assume "map id' (expenses ?s') = map id' (expenses s)"
    with Cons.prems show ?thesis by (cases op) auto
  next
    fix now d assume "op = Submit now d" "map id' (expenses ?s') = now # map id' (expenses s)"
    with Cons.prems show ?thesis by auto
  next
    fix i assume "op = Delete i" "map id' (expenses ?s') = filter (\<lambda>j. j \<noteq> i) (map id' (expenses s))"
    with Cons.prems show ?thesis by auto
  qed
  then show ?case using Cons.IH [of ?s'] by simp
qed

lemma valid_lunch [simp]: "valid_draft lunch" "valid_draft lunch_15" "valid_draft coffee"
  by (simp_all add: valid_draft_def lunch_def lunch_15_def coffee_def js_def)

lemma edit_of_deleted_eq:
  "edit_of_deleted = \<lparr>expenses = [newExpense 1704153600000 coffee], formData = lunch_15,
      editingId = Some 1704067200000\<rparr>"
  by (simp add: edit_of_deleted_def handleFormSubmit_def fill_form_def initial_state_def
      resetForm_def newExpense_def handleEditClick_def handleDeleteClick_def
      lunch_def coffee_def lunch_15_def js_def INITIAL_FORM_STATE_def)

lemma collided_edit_eq:
  "collided_edit =
     \<lparr>expenses = [newExpense 1704067200000 coffee, newExpense 1704067200000 lunch],
      formData = coffee_4, editingId = Some 1704067200000\<rparr>"
  by (simp add: collided_edit_def handleFormSubmit_def fill_form_def initial_state_def
      resetForm_def newExpense_def handleEditClick_def
      lunch_def coffee_def coffee_4_def js_def INITIAL_FORM_STATE_def)

subsection \<open>Unique ids\<close>

text \<open>
  C1, as the code has it. An id is the clock reading of the submission, so two
  submissions in add-mode within one millisecond create two records with one id: the
  ids of the collection are not distinct after every sequence of operations.
\<close>

theorem ids_collide_in_one_millisecond:
  "\<not> distinct (map id' (expenses
      (run [Submit 1704067200000 lunch, Submit 1704067200000 coffee] initial_state)))"
  by (simp add: handleFormSubmit_def fill_form_def initial_state_def resetForm_def newExpense_def
      lunch_def coffee_def js_def INITIAL_FORM_STATE_def)

text \<open>
  C1 (amended): for every sequence of Submit, Delete, BeginEdit and CancelEdit
  operations from the initial state in which the clock readings of the Submit
  operations are pairwise distinct, no two records of the resulting collection share
  an id.
\<close>

theorem ids_unique_when_clock_readings_differ:
  "distinct (submit_times ops) \<Longrightarrow> distinct (map id' (expenses (run ops initial_state)))"
  using run_distinct_ids [of initial_state ops] by (simp add: initial_state_def)

text \<open>
  The amended C1 at three operations: two submissions a day apart and the deletion of
  the first record.
\<close>

theorem ids_unique_witness:
  "distinct (submit_times [Submit 1704067200000 lunch, Submit 1704153600000 coffee, Delete 1704067200000]) \<and>
   distinct (map id' (expenses (run [Submit 1704067200000 lunch, Submit 1704153600000 coffee, Delete 1704067200000] initial_state)))"
  using ids_unique_when_clock_readings_differ
    [of "[Submit 1704067200000 lunch, Submit 1704153600000 coffee, Delete 1704067200000]"]
  by simp

subsection \<open>Submit\<close>

text \<open>
  C2: in add-mode (\<open>editingId = None\<close>) and with three non-empty fields, the
  submission shows no alert, and the new collection is the old one with one record
  put in front: the draft's amount, date and note under the id \<open>now\<close>, the clock
  reading of the submission. Its length is one more.
\<close>

theorem submit_add_mode:
  assumes "valid_draft (formData s)" and "editingId s = None"
  shows "fst (handleFormSubmit now s) = None \<and>
         expenses (snd (handleFormSubmit now s)) =
           \<lparr>amount = amount (formData s), date = date (formData s), note = note (formData s),
            id' = now\<rparr> # expenses s \<and>
         length (expenses (snd (handleFormSubmit now s))) = length (expenses s) + 1"
  using assms by (simp add: handleFormSubmit_def valid_draft_def resetForm_def newExpense_def)

text \<open>
  C2 at the first scenario of the specification: the lunch draft submitted in the
  initial state.
\<close>

theorem submit_add_mode_witness:
  "valid_draft (formData (fill_form lunch initial_state)) \<and>
   editingId (fill_form lunch initial_state) = None \<and>
   fst (handleFormSubmit 1704067200000 (fill_form lunch initial_state)) = None \<and>
   expenses (snd (handleFormSubmit 1704067200000 (fill_form lunch initial_state))) =
     [\<lparr>amount = js ''12.50'', date = js ''2024-01-01'', note = js ''Lunch'', id' = 1704067200000\<rparr>]"
  using submit_add_mode [of "fill_form lunch initial_state" 1704067200000]
  by (simp add: fill_form_def initial_state_def lunch_def valid_draft_def js_def)

text \<open>
  C3, as the code has it. \<^verbatim>\<open>expenses.map\<close> rewrites every expense whose id is
  \<^verbatim>\<open>editingId\<close>. After two submissions within one millisecond the collection
  holds two records with one id; editing the coffee overwrites the lunch as well, a
  record other than the edited one.
\<close>

theorem edit_overwrites_records_sharing_id:
  "valid_draft (formData collided_edit) \<and>
   editingId collided_edit = Some 1704067200000 \<and>
   newExpense 1704067200000 coffee \<in> set (expenses collided_edit) \<and>
   id' (newExpense 1704067200000 coffee) = 1704067200000 \<and>
   expenses collided_edit ! 1 = newExpense 1704067200000 lunch \<and>
   expenses collided_edit ! 1 \<noteq> newExpense 1704067200000 coffee \<and>
   expenses (snd (handleFormSubmit 1704200000000 collided_edit)) ! 1 =
     newExpense 1704067200000 coffee_4 \<and>
   expenses (snd (handleFormSubmit 1704200000000 collided_edit)) ! 1 \<noteq>
     expenses collided_edit ! 1"
  by (simp add: collided_edit_eq handleFormSubmit_def resetForm_def spread_formData_def
      newExpense_def valid_draft_def lunch_def coffee_def coffee_4_def js_def)

text \<open>
  C3 (amended): in edit-mode on an id \<open>x\<close> that a record \<open>e\<close> of the collection
  has, and with three non-empty fields, the submission shows no alert and returns a
  collection of the same length; at every position the id is the one that was there,
  a record with id \<open>x\<close> has its amount, date and note replaced by the draft's, and
  a record with another id is unchanged. In particular \<open>e\<close> is updated at its
  position, and when no two records share an id, every record but \<open>e\<close> is
  unchanged.
\<close>

theorem submit_edit_mode:
  assumes "valid_draft (formData s)" and "editingId s = Some x"
    and "e \<in> set (expenses s)" and "id' e = x"
  shows "fst (handleFormSubmit now s) = None \<and>
         length (expenses (snd (handleFormSubmit now s))) = length (expenses s) \<and>
         (\<forall>i < length (expenses s).
            id' (expenses (snd (handleFormSubmit now s)) ! i) = id' (expenses s ! i) \<and>
            (id' (expenses s ! i) = x \<longrightarrow>
               expenses (snd (handleFormSubmit now s)) ! i =
                 (expenses s ! i)\<lparr>amount := amount (formData s), date := date (formData s),
                                   note := note (formData s)\<rparr>) \<and>
            (id' (expenses s ! i) \<noteq> x \<longrightarrow>
               expenses (snd (handleFormSubmit now s)) ! i = expenses s ! i)) \<and>
         (\<exists>i < length (expenses s). expenses s ! i = e \<and>
            expenses (snd (handleFormSubmit now s)) ! i =
              e\<lparr>amount := amount (formData s), date := date (formData s),
                note := note (formData s)\<rparr>) \<and>
         (distinct (map id' (expenses s)) \<longrightarrow>
            (\<forall>j < length (expenses s). expenses s ! j \<noteq> e \<longrightarrow>
               expenses (snd (handleFormSubmit now s)) ! j = expenses s ! j))"
proof -
  from assms(3) obtain i where i: "i < length (expenses s)" "expenses s ! i = e"
    by (auto simp: in_set_conv_nth)
  have ex: "expenses (snd (handleFormSubmit now s)) =
      map (\<lambda>expense. if id' expense = x then spread_formData expense (formData s) else expense)
        (expenses s)"
    using assms(1,2) by (simp add: handleFormSubmit_def valid_draft_def resetForm_def)
  have "fst (handleFormSubmit now s) = None"
    using assms(1,2) by (simp add: handleFormSubmit_def valid_draft_def resetForm_def)
  moreover have "length (expenses (snd (handleFormSubmit now s))) = length (expenses s)"
    by (simp add: ex)
  moreover have "\<forall>i < length (expenses s).
            id' (expenses (snd (handleFormSubmit now s)) ! i) = id' (expenses s ! i) \<and>
            (id' (expenses s ! i) = x \<longrightarrow>
               expenses (snd (handleFormSubmit now s)) ! i =
                 (expenses s ! i)\<lparr>amount := amount (formData s), date := date (formData s),
                                   note := note (formData s)\<rparr>) \<and>
            (id' (expenses s ! i) \<noteq> x \<longrightarrow>
               expenses (snd (handleFormSubmit now s)) ! i = expenses s ! i)"
    by (simp add: ex spread_formData_def)
  moreover have "\<exists>i < length (expenses s). expenses s ! i = e \<and>
            expenses (snd (handleFormSubmit now s)) ! i =
              e\<lparr>amount := amount (formData s), date := date (formData s),
                note := note (formData s)\<rparr>"
    using i assms(4) by (auto simp: ex spread_formData_def)
  moreover have "distinct (map id' (expenses s)) \<longrightarrow>
            (\<forall>j < length (expenses s). expenses s ! j \<noteq> e \<longrightarrow>
               expenses (snd (handleFormSubmit now s)) ! j = expenses s ! j)"
  proof (intro impI allI)
    fix j
    assume d: "distinct (map id' (expenses s))" and j: "j < length (expenses s)"
      and ne: "expenses s ! j \<noteq> e"
    have "id' (expenses s ! j) \<noteq> x"
    proof
      assume "id' (expenses s ! j) = x"
      with i j assms(4) have "map id' (expenses s) ! j = map id' (expenses s) ! i" by simp
      moreover have "(map id' (expenses s) ! j = map id' (expenses s) ! i) = (j = i)"
        using d i j by (intro nth_eq_iff_index_eq) simp_all
      ultimately have "j = i" by (simp only:)
      with i ne show False by simp
    qed
    with j show "expenses (snd (handleFormSubmit now s)) ! j = expenses s ! j"
      by (simp add: ex)
  qed
  ultimately show ?thesis by blast
qed

text \<open>
  The amended C3 at the second scenario: of two records, the older one is edited to
  the amount 15.00.
\<close>

theorem submit_edit_mode_witness:
  "valid_draft (formData editing_lunch) \<and> editingId editing_lunch = Some 1704067200000 \<and>
   newExpense 1704067200000 lunch \<in> set (expenses editing_lunch) \<and>
   id' (newExpense 1704067200000 lunch) = 1704067200000 \<and>
   distinct (map id' (expenses editing_lunch)) \<and>
   length (expenses (snd (handleFormSubmit 1704200000000 editing_lunch))) = 2 \<and>
   expenses (snd (handleFormSubmit 1704200000000 editing_lunch)) ! 0 =
     newExpense 1704153600000 coffee \<and>
   expenses (snd (handleFormSubmit 1704200000000 editing_lunch)) ! 1 =
     newExpense 1704067200000 lunch_15"
proof -
  have h: "valid_draft (formData editing_lunch)" "editingId editing_lunch = Some 1704067200000"
    "newExpense 1704067200000 lunch \<in> set (expenses editing_lunch)"
    "id' (newExpense 1704067200000 lunch) = 1704067200000"
    by (simp_all add: editing_lunch_def two_expenses_def newExpense_def)
  have d: "distinct (map id' (expenses editing_lunch))"
    by (simp add: editing_lunch_def two_expenses_def newExpense_def)
  note r = submit_edit_mode [OF h, of 1704200000000]
  from r have len: "length (expenses (snd (handleFormSubmit 1704200000000 editing_lunch))) = 2"
    by (simp add: editing_lunch_def two_expenses_def)
  from r have "0 < length (expenses editing_lunch) \<longrightarrow>
      (id' (expenses editing_lunch ! 0) \<noteq> 1704067200000 \<longrightarrow>
         expenses (snd (handleFormSubmit 1704200000000 editing_lunch)) ! 0 =
         expenses editing_lunch ! 0)"
    by blast
  then have e0: "expenses (snd (handleFormSubmit 1704200000000 editing_lunch)) ! 0 =
      newExpense 1704153600000 coffee"
    by (simp add: editing_lunch_def two_expenses_def newExpense_def)
  from r have "1 < length (expenses editing_lunch) \<longrightarrow>
      (id' (expenses editing_lunch ! 1) = 1704067200000 \<longrightarrow>
         expenses (snd (handleFormSubmit 1704200000000 editing_lunch)) ! 1 =
         (expenses editing_lunch ! 1)\<lparr>amount := amount (formData editing_lunch),
            date := date (formData editing_lunch), note := note (formData editing_lunch)\<rparr>)"
    by blast
  then have e1: "expenses (snd (handleFormSubmit 1704200000000 editing_lunch)) ! 1 =
      newExpense 1704067200000 lunch_15"
    by (simp add: editing_lunch_def two_expenses_def newExpense_def lunch_15_def)
  from h d len e0 e1 show ?thesis by simp
qed

text \<open>
  C4: when the amount, the date or the note of the draft is the empty string, the
  submission shows the alert and returns the state as it was: the collection, the
  edit session and the draft.
\<close>

theorem submit_empty_field_alerts:
  "amount (formData s) = [] \<or> date (formData s) = [] \<or> note (formData s) = [] \<Longrightarrow>
   handleFormSubmit now s = (Some ''Please fill out all fields.'', s)"
  by (simp add: handleFormSubmit_def)

text \<open>
  C4 in edit-mode with the note erased.
\<close>

theorem submit_empty_field_witness:
  "note (formData (handleInputChange Note [] editing_lunch)) = [] \<and>
   handleFormSubmit 1704200000000 (handleInputChange Note [] editing_lunch) =
     (Some ''Please fill out all fields.'',
      \<lparr>expenses = two_expenses,
       formData = \<lparr>amount = js ''15.00'', date = js ''2024-01-01'', note = []\<rparr>,
       editingId = Some 1704067200000\<rparr>)"
proof -
  have h: "amount (formData (handleInputChange Note [] editing_lunch)) = [] \<or>
      date (formData (handleInputChange Note [] editing_lunch)) = [] \<or>
      note (formData (handleInputChange Note [] editing_lunch)) = []"
    by simp
  from submit_empty_field_alerts [OF h, of 1704200000000] show ?thesis
    by (simp add: editing_lunch_def lunch_15_def)
qed

text \<open>
  C9: after a submission with three non-empty fields, in add-mode or in edit-mode,
  no alert was shown, the edit session is \<open>None\<close> and the draft is the empty draft:
  the values \<open>resetForm\<close>, the handler of Cancel, gives these two components.
\<close>

theorem submit_resets_form:
  "valid_draft (formData s) \<Longrightarrow>
   fst (handleFormSubmit now s) = None \<and>
   editingId (snd (handleFormSubmit now s)) = None \<and>
   formData (snd (handleFormSubmit now s)) = INITIAL_FORM_STATE \<and>
   editingId (snd (handleFormSubmit now s)) = editingId (resetForm s) \<and>
   formData (snd (handleFormSubmit now s)) = formData (resetForm s)"
  by (simp add: handleFormSubmit_def valid_draft_def resetForm_def Let_def)

text \<open>
  C9 at a submission in edit-mode and at one in add-mode.
\<close>

theorem submit_resets_form_witness:
  "valid_draft (formData editing_lunch) \<and>
   editingId (snd (handleFormSubmit 1704200000000 editing_lunch)) = None \<and>
   formData (snd (handleFormSubmit 1704200000000 editing_lunch)) =
     \<lparr>amount = [], date = [], note = []\<rparr> \<and>
   valid_draft (formData (fill_form coffee initial_state)) \<and>
   editingId (snd (handleFormSubmit 1704200000000 (fill_form coffee initial_state))) = None \<and>
   formData (snd (handleFormSubmit 1704200000000 (fill_form coffee initial_state))) =
     \<lparr>amount = [], date = [], note = []\<rparr>"
proof -
  have h1: "valid_draft (formData editing_lunch)"
    by (simp add: editing_lunch_def)
  have h2: "valid_draft (formData (fill_form coffee initial_state))"
    by (simp add: fill_form_def valid_draft_def coffee_def js_def)
  from h1 h2 submit_resets_form [OF h1, of 1704200000000] submit_resets_form [OF h2, of 1704200000000]
  show ?thesis by (simp add: INITIAL_FORM_STATE_def)
qed

text \<open>
  C10: in edit-mode on an id that no record of the collection has, a submission with
  three non-empty fields shows no alert, returns the collection as it was and clears
  the edit session and the draft.
\<close>

theorem submit_edit_of_absent_id:
  assumes "valid_draft (formData s)" and "editingId s = Some x"
    and "x \<notin> id' ` set (expenses s)"
  shows "handleFormSubmit now s = (None, s\<lparr>formData := INITIAL_FORM_STATE, editingId := None\<rparr>)"
proof -
  have "map (\<lambda>expense. if id' expense = x then spread_formData expense (formData s) else expense)
          (expenses s) = expenses s"
    using assms(3) by (intro map_idI) auto
  then show ?thesis
    using assms(1,2) by (simp add: handleFormSubmit_def valid_draft_def resetForm_def)
qed

text \<open>
  C10 at the state reached by deleting the record that is being edited.
\<close>

theorem submit_edit_of_absent_id_witness:
  "valid_draft (formData edit_of_deleted) \<and> editingId edit_of_deleted = Some 1704067200000 \<and>
   1704067200000 \<notin> id' ` set (expenses edit_of_deleted) \<and>
   handleFormSubmit 1704200000000 edit_of_deleted =
     (None, \<lparr>expenses = [newExpense 1704153600000 coffee],
             formData = \<lparr>amount = [], date = [], note = []\<rparr>, editingId = None\<rparr>)"
proof -
  have h: "valid_draft (formData edit_of_deleted)" "editingId edit_of_deleted = Some 1704067200000"
    "1704067200000 \<notin> id' ` set (expenses edit_of_deleted)"
    by (simp_all add: edit_of_deleted_eq newExpense_def)
  from h submit_edit_of_absent_id [OF h, of 1704200000000] show ?thesis
    by (simp add: edit_of_deleted_eq INITIAL_FORM_STATE_def)
qed

subsection \<open>Delete\<close>

text \<open>
  C5, as the code has it: \<^verbatim>\<open>handleDeleteClick\<close> sets \<^verbatim>\<open>expenses\<close> only. Deleting
  the record that is being edited removes it and leaves the edit session on its id.
\<close>

theorem delete_keeps_session_on_deleted_id:
  "editingId editing_lunch = Some 1704067200000 \<and>
   expenses (handleDeleteClick True 1704067200000 editing_lunch) = [newExpense 1704153600000 coffee] \<and>
   editingId (handleDeleteClick True 1704067200000 editing_lunch) \<noteq> None"
  by (simp add: handleDeleteClick_def editing_lunch_def two_expenses_def newExpense_def)

text \<open>
  C5 (amended): Delete leaves the edit session and the draft as they were, whatever
  the id; confirmed, it removes the records with that id from the collection.
\<close>

theorem delete_leaves_edit_session:
  "editingId (handleDeleteClick confirmed i s) = editingId s \<and>
   formData (handleDeleteClick confirmed i s) = formData s \<and>
   expenses (handleDeleteClick True i s) = filter (\<lambda>expense. id' expense \<noteq> i) (expenses s)"
  by (simp add: handleDeleteClick_def)

text \<open>
  C6: deleting an id that no record of the collection has returns the state as it
  was, whether the dialog is confirmed or not; the handler has no failing branch.
\<close>

theorem delete_absent_id_is_noop:
  "i \<notin> id' ` set (expenses s) \<Longrightarrow> handleDeleteClick confirmed i s = s"
proof -
  assume "i \<notin> id' ` set (expenses s)"
  then have "filter (\<lambda>expense. id' expense \<noteq> i) (expenses s) = expenses s"
    by (auto simp: filter_id_conv)
  then show ?thesis by (simp add: handleDeleteClick_def)
qed

text \<open>
  C6 at a collection of two records and an id of neither.
\<close>

theorem delete_absent_id_witness:
  "1704067200001 \<notin> id' ` set (expenses editing_lunch) \<and>
   handleDeleteClick True 1704067200001 editing_lunch = editing_lunch"
proof -
  have h: "1704067200001 \<notin> id' ` set (expenses editing_lunch)"
    by (simp add: editing_lunch_def two_expenses_def newExpense_def)
  from h delete_absent_id_is_noop [OF h, of True] show ?thesis by simp
qed

subsection \<open>Numbers: reading what \<^verbatim>\<open>Number::toString\<close> wrote\<close>

lemma unat_digit_char: "d < 10 \<Longrightarrow> unat (digit_char d) = 48 + d"
  unfolding digit_char_def by (simp only: unat_of_nat) simp

lemma is_digit_unat: "is_digit c \<longleftrightarrow> 48 \<le> unat c \<and> unat c \<le> 57"
  by (simp add: is_digit_def word_le_nat_alt)

lemma is_digit_digit_char: "d < 10 \<Longrightarrow> is_digit (digit_char d)"
  by (simp add: is_digit_unat unat_digit_char)

lemma digit_val_digit_char: "d < 10 \<Longrightarrow> digit_val (digit_char d) = d"
  by (simp add: digit_val_def unat_digit_char)

lemma digit_char_eq_zero: "d < 10 \<Longrightarrow> digit_char d = 0x30 \<longleftrightarrow> d = 0"
proof -
  assume d: "d < 10"
  have "digit_char d = 0x30 \<longleftrightarrow> unat (digit_char d) = unat (0x30 :: 16 word)"
    by (simp only: word_unat_eq_iff)
  then show ?thesis using d by (simp add: unat_digit_char)
qed

lemma nat_digits_not_Nil: "nat_digits n \<noteq> []"
  by (subst nat_digits.simps) simp

lemma list_all_nat_digits: "list_all is_digit (nat_digits n)"
proof (induction n rule: nat_digits.induct)
  case (1 n)
  show ?case
  proof (cases "n < 10")
    case True
    then show ?thesis by (subst nat_digits.simps) (simp add: is_digit_digit_char)
  next
    case False
    with 1 show ?thesis by (subst nat_digits.simps) (simp add: is_digit_digit_char)
  qed
qed

lemma digits_val_snoc: "digits_val (ds @ [d]) = 10 * digits_val ds + digit_val d"
  by (simp add: digits_val_def)

lemma digits_val_nat_digits: "digits_val (nat_digits n) = n"
proof (induction n rule: nat_digits.induct)
  case (1 n)
  show ?case
  proof (cases "n < 10")
    case True
    then show ?thesis
      by (subst nat_digits.simps) (simp add: digits_val_def digit_val_digit_char)
  next
    case False
    with 1 show ?thesis
      by (subst nat_digits.simps) (simp add: digits_val_snoc digit_val_digit_char)
  qed
qed

lemma hd_nat_digits: "0 < n \<Longrightarrow> hd (nat_digits n) \<noteq> 0x30"
proof (induction n rule: nat_digits.induct)
  case (1 n)
  show ?case
  proof (cases "n < 10")
    case True
    with "1.prems" show ?thesis
      by (subst nat_digits.simps) (simp add: digit_char_eq_zero)
  next
    case False
    then have "0 < n div 10" by simp
    with 1 False show ?thesis
      by (subst nat_digits.simps) (simp add: nat_digits_not_Nil)
  qed
qed

lemma nat_digits_0: "nat_digits 0 = [0x30]"
  by (subst nat_digits.simps) (simp add: digit_char_def)

lemma not_is_digit_comma [simp]: "\<not> is_digit 0x2C" "\<not> is_digit 0x2D"
  by (simp_all add: is_digit_def)

lemma takeWhile_nat_digits: "\<not> is_digit c \<Longrightarrow> takeWhile is_digit (nat_digits n @ c # r) = nat_digits n"
  using list_all_nat_digits [of n] by (simp add: takeWhile_tail list_all_iff)

lemma dropWhile_nat_digits: "\<not> is_digit c \<Longrightarrow> dropWhile is_digit (nat_digits n @ c # r) = c # r"
  using list_all_nat_digits [of n] by (simp add: dropWhile_append2 list_all_iff)

lemma lex_int_nat_digits:
  assumes "\<not> is_digit c"
  shows "lex_int (nat_digits n @ c # r) = Some (n, c # r)"
proof (cases "n = 0")
  case True
  then show ?thesis by (simp add: nat_digits_0 lex_int_def)
next
  case False
  obtain d ds where ds: "nat_digits n = d # ds"
    using nat_digits_not_Nil [of n] by (cases "nat_digits n") auto
  with False hd_nat_digits [of n] have "d \<noteq> 0x30" by simp
  moreover from ds list_all_nat_digits [of n] have "is_digit d" by simp
  moreover have "takeWhile is_digit (d # ds @ c # r) = d # ds"
    using takeWhile_nat_digits [OF assms, of n r] ds by simp
  moreover have "dropWhile is_digit (d # ds @ c # r) = c # r"
    using dropWhile_nat_digits [OF assms, of n r] ds by simp
  ultimately show ?thesis
    using digits_val_nat_digits [of n] ds by (simp add: lex_int_def)
qed

lemma lex_number_toString:
  "lex_number (Number_toString i @ 0x2C # r) = Some (of_int i, 0x2C # r)"
proof (cases "i < 0")
  case True
  then have "lex_minus (Number_toString i @ 0x2C # r) = (True, nat_digits (nat (- i)) @ 0x2C # r)"
    by (simp add: Number_toString_def lex_minus_def)
  moreover have "(of_nat (nat (- i)) :: rat) = - of_int i"
    using True by simp
  ultimately show ?thesis
    by (simp add: lex_number_def lex_int_nat_digits lex_frac_def lex_exp_def number_value_def)
next
  case False
  obtain d ds where ds: "nat_digits (nat i) = d # ds"
    using nat_digits_not_Nil [of "nat i"] by (cases "nat_digits (nat i)") auto
  with list_all_nat_digits [of "nat i"] have "is_digit d" by simp
  then have "d \<noteq> 0x2D" by auto
  with ds False have "lex_minus (Number_toString i @ 0x2C # r) = (False, nat_digits (nat i) @ 0x2C # r)"
    by (simp add: Number_toString_def lex_minus_def)
  moreover have "(of_nat (nat i) :: rat) = of_int i"
    using False by simp
  ultimately show ?thesis
    by (simp add: lex_number_def lex_int_nat_digits lex_frac_def lex_exp_def number_value_def)
qed

subsection \<open>Strings: reading what \<^verbatim>\<open>QuoteJSONString\<close> wrote\<close>

lemma unat_hex_char: "d < 16 \<Longrightarrow> unat (hex_char d) = (if d < 10 then 48 + d else 87 + d)"
  unfolding hex_char_def by (simp only: unat_of_nat split: if_splits) simp

lemma hex_val_unat:
  "hex_val c =
     (if 48 \<le> unat c \<and> unat c \<le> 57 then Some (unat c - 48)
      else if 97 \<le> unat c \<and> unat c \<le> 102 then Some (unat c - 87)
      else if 65 \<le> unat c \<and> unat c \<le> 70 then Some (unat c - 55)
      else None)"
  by (simp add: hex_val_def word_le_nat_alt)

lemma hex_val_hex_char: "d < 16 \<Longrightarrow> hex_val (hex_char d) = Some d"
  by (simp add: hex_val_unat unat_hex_char)

lemma hex_digits_value:
  fixes n :: nat
  shows "((n div 4096 * 16 + n div 256 mod 16) * 16 + n div 16 mod 16) * 16 + n mod 16 = n"
proof -
  have "n div 4096 = n div 256 div 16" by (simp add: div_mult2_eq)
  then have "n div 4096 * 16 + n div 256 mod 16 = n div 256" by simp
  moreover have "n div 256 = n div 16 div 16" by (simp add: div_mult2_eq)
  then have "n div 256 * 16 + n div 16 mod 16 = n div 16" by simp
  ultimately show ?thesis by simp
qed

lemma hex4_UnicodeEscape:
  "hex4 (hex_char (unat c div 4096)) (hex_char (unat c div 256 mod 16))
        (hex_char (unat c div 16 mod 16)) (hex_char (unat c mod 16)) = Some c"
proof -
  have "unat c < 2 ^ LENGTH(16)" by (rule unsigned_less)
  then have "unat c div 4096 < 16" by simp
  then have "hex4 (hex_char (unat c div 4096)) (hex_char (unat c div 256 mod 16))
        (hex_char (unat c div 16 mod 16)) (hex_char (unat c mod 16)) =
     Some (of_nat (((unat c div 4096 * 16 + unat c div 256 mod 16) * 16 + unat c div 16 mod 16) * 16
        + unat c mod 16))"
    unfolding hex4_def by (simp only: hex_val_hex_char prod.case option.case)
  then show ?thesis by (simp only: hex_digits_value) simp
qed

lemma lex_string_escapes:
  "lex_string (0x5C # 0x62 # cs) = cons_result 0x08 (lex_string cs)"
  "lex_string (0x5C # 0x74 # cs) = cons_result 0x09 (lex_string cs)"
  "lex_string (0x5C # 0x6E # cs) = cons_result 0x0A (lex_string cs)"
  "lex_string (0x5C # 0x66 # cs) = cons_result 0x0C (lex_string cs)"
  "lex_string (0x5C # 0x72 # cs) = cons_result 0x0D (lex_string cs)"
  "lex_string (0x5C # 0x22 # cs) = cons_result 0x22 (lex_string cs)"
  "lex_string (0x5C # 0x5C # cs) = cons_result 0x5C (lex_string cs)"
  by (simp_all add: unescape_def)

lemma lex_string_UnicodeEscape:
  "lex_string (UnicodeEscape c @ cs) = cons_result c (lex_string cs)"
  by (simp add: UnicodeEscape_def hex4_UnicodeEscape)

lemma lex_string_literal:
  "c \<noteq> 0x22 \<Longrightarrow> c \<noteq> 0x5C \<Longrightarrow> \<not> c < 0x20 \<Longrightarrow> lex_string (c # cs) = cons_result c (lex_string cs)"
  by simp

lemma surrogate_literal:
  "is_leading_surrogate c \<or> is_trailing_surrogate c \<Longrightarrow> c \<noteq> 0x22 \<and> c \<noteq> 0x5C \<and> \<not> c < 0x20"
  by (auto simp: is_leading_surrogate_def is_trailing_surrogate_def word_le_nat_alt word_less_nat_alt)

lemma quote_named:
  "quote_code_units (0x08 # cs) = [0x5C, 0x62] @ quote_code_units cs"
  "quote_code_units (0x09 # cs) = [0x5C, 0x74] @ quote_code_units cs"
  "quote_code_units (0x0A # cs) = [0x5C, 0x6E] @ quote_code_units cs"
  "quote_code_units (0x0C # cs) = [0x5C, 0x66] @ quote_code_units cs"
  "quote_code_units (0x0D # cs) = [0x5C, 0x72] @ quote_code_units cs"
  "quote_code_units (0x22 # cs) = [0x5C, 0x22] @ quote_code_units cs"
  "quote_code_units (0x5C # cs) = [0x5C, 0x5C] @ quote_code_units cs"
  by simp_all

lemma quote_control:
  "\<not> named_escape c \<Longrightarrow> c < 0x20 \<Longrightarrow> quote_code_units (c # cs) = UnicodeEscape c @ quote_code_units cs"
  by (simp add: named_escape_def)

lemma not_control:
  fixes c :: "16 word"
  shows "\<not> c < 0x20 \<Longrightarrow> c \<noteq> 0x08 \<and> c \<noteq> 0x09 \<and> c \<noteq> 0x0A \<and> c \<noteq> 0x0C \<and> c \<noteq> 0x0D"
  by auto

lemma quote_pair:
  "is_leading_surrogate c \<Longrightarrow> is_trailing_surrogate d \<Longrightarrow>
   quote_code_units (c # d # ds) = c # d # quote_code_units ds"
  using surrogate_literal [of c] not_control [of c] by simp

lemma quote_lone_leading:
  "is_leading_surrogate c \<Longrightarrow> cs = [] \<or> \<not> is_trailing_surrogate (hd cs) \<Longrightarrow>
   quote_code_units (c # cs) = UnicodeEscape c @ quote_code_units cs"
  using surrogate_literal [of c] not_control [of c] by (cases cs) auto

lemma quote_lone_trailing:
  "\<not> is_leading_surrogate c \<Longrightarrow> is_trailing_surrogate c \<Longrightarrow>
   quote_code_units (c # cs) = UnicodeEscape c @ quote_code_units cs"
  using surrogate_literal [of c] not_control [of c] by simp

lemma quote_plain:
  "\<not> named_escape c \<Longrightarrow> \<not> c < 0x20 \<Longrightarrow> \<not> is_leading_surrogate c \<Longrightarrow>
   \<not> is_trailing_surrogate c \<Longrightarrow> quote_code_units (c # cs) = c # quote_code_units cs"
  using not_control [of c] by (simp add: named_escape_def)

lemma lex_string_quote_code_units:
  "lex_string (quote_code_units s @ 0x22 # rest) = Some (s, rest)"
proof (induction "length s" arbitrary: s rule: less_induct)
  case less
  show ?case
  proof (cases s)
    case Nil
    then show ?thesis by simp
  next
    case (Cons c cs)
    have ih: "lex_string (quote_code_units cs @ 0x22 # rest) = Some (cs, rest)"
      using less [of cs] Cons by simp
    consider (named) "named_escape c"
      | (control) "\<not> named_escape c" "c < 0x20"
      | (pair) d ds where "is_leading_surrogate c" "cs = d # ds" "is_trailing_surrogate d"
      | (lone) "is_leading_surrogate c" "cs = [] \<or> \<not> is_trailing_surrogate (hd cs)"
      | (trailing) "\<not> is_leading_surrogate c" "is_trailing_surrogate c"
      | (plain) "\<not> named_escape c" "\<not> c < 0x20" "\<not> is_leading_surrogate c"
          "\<not> is_trailing_surrogate c"
      by (cases cs) auto
    then show ?thesis
    proof cases
      case named
      then show ?thesis
        unfolding named_escape_def Cons
        by (elim disjE) (simp_all only: quote_named append_Cons append_Nil lex_string_escapes ih
            cons_result_def option.case prod.case)
    next
      case control
      show ?thesis
        unfolding Cons
        by (simp only: quote_control [OF control] append_assoc lex_string_UnicodeEscape ih
            cons_result_def option.case prod.case)
    next
      case pair
      have ih2: "lex_string (quote_code_units ds @ 0x22 # rest) = Some (ds, rest)"
        using less [of ds] Cons pair by simp
      from pair surrogate_literal [of c] surrogate_literal [of d]
      have lit: "c \<noteq> 0x22" "c \<noteq> 0x5C" "\<not> c < 0x20" "d \<noteq> 0x22" "d \<noteq> 0x5C" "\<not> d < 0x20"
        by simp_all
      show ?thesis
        unfolding Cons pair(2)
        by (simp only: quote_pair [OF pair(1,3)] append_Cons lex_string_literal [OF lit(1-3)]
            lex_string_literal [OF lit(4-6)] ih2 cons_result_def option.case prod.case)
    next
      case lone
      show ?thesis
        unfolding Cons
        by (simp only: quote_lone_leading [OF lone] append_assoc lex_string_UnicodeEscape ih
            cons_result_def option.case prod.case)
    next
      case trailing
      show ?thesis
        unfolding Cons
        by (simp only: quote_lone_trailing [OF trailing] append_assoc lex_string_UnicodeEscape ih
            cons_result_def option.case prod.case)
    next
      case plain
      then have lit: "c \<noteq> 0x22" "c \<noteq> 0x5C" "\<not> c < 0x20"
        by (simp_all add: named_escape_def)
      show ?thesis
        unfolding Cons
        by (simp only: quote_plain [OF plain] append_Cons lex_string_literal [OF lit] ih
            cons_result_def option.case prod.case)
    qed
  qed
qed

subsection \<open>The tokens of a saved collection\<close>

lemma cons_token_prepend: "cons_token t (prepend_tokens ts r) = prepend_tokens (t # ts) r"
  by (simp add: cons_token_def prepend_tokens_def split: option.splits)

lemma cons_token_eq_prepend: "cons_token t r = prepend_tokens [t] r"
  by (simp add: cons_token_def prepend_tokens_def split: option.splits)

lemma prepend_prepend: "prepend_tokens ts (prepend_tokens us r) = prepend_tokens (ts @ us) r"
  by (simp add: prepend_tokens_def split: option.splits)

lemma lex_punctuation:
  "lex (0x5B # cs) = cons_token LBRACKET (lex cs)"
  "lex (0x5D # cs) = cons_token RBRACKET (lex cs)"
  "lex (0x7B # cs) = cons_token LBRACE (lex cs)"
  "lex (0x7D # cs) = cons_token RBRACE (lex cs)"
  "lex (0x3A # cs) = cons_token COLON (lex cs)"
  "lex (0x2C # cs) = cons_token COMMA (lex cs)"
  by (simp_all add: is_whitespace_def)

lemma lex_QuoteJSONString:
  "lex (QuoteJSONString s @ rest) = cons_token (TString s) (lex rest)"
  by (simp add: QuoteJSONString_def is_whitespace_def lex_string_quote_code_units)

lemma digit_not_special:
  assumes "is_digit c"
  shows "\<not> is_whitespace c" "c \<noteq> 0x5B" "c \<noteq> 0x5D" "c \<noteq> 0x7B" "c \<noteq> 0x7D" "c \<noteq> 0x3A"
    "c \<noteq> 0x2C" "c \<noteq> 0x22"
  using assms by (auto simp: is_digit_def is_whitespace_def)

lemma lex_number_start:
  assumes "c = 0x2D \<or> is_digit c"
  shows "lex (c # cs) =
    (case lex_number (c # cs) of None \<Rightarrow> None
     | Some (v, rest) \<Rightarrow> cons_token (TNumber v) (lex rest))"
proof (cases "c = 0x2D")
  case True
  then show ?thesis by (simp add: is_whitespace_def)
next
  case False
  with assms have d: "is_digit c" by simp
  from digit_not_special [OF d] d show ?thesis by simp
qed

lemma Number_toString_start:
  "\<exists>c cs. Number_toString i = c # cs \<and> (c = 0x2D \<or> is_digit c)"
proof (cases "i < 0")
  case True
  then show ?thesis by (simp add: Number_toString_def)
next
  case False
  obtain d ds where ds: "nat_digits (nat i) = d # ds"
    using nat_digits_not_Nil [of "nat i"] by (cases "nat_digits (nat i)") auto
  with list_all_nat_digits [of "nat i"] have "is_digit d" by simp
  with ds False show ?thesis by (simp add: Number_toString_def)
qed

lemma lex_Number_toString:
  "lex (Number_toString i @ 0x2C # rest) = cons_token (TNumber (of_int i)) (lex (0x2C # rest))"
proof -
  obtain c cs where c: "Number_toString i = c # cs" "c = 0x2D \<or> is_digit c"
    using Number_toString_start [of i] by blast
  have "lex (Number_toString i @ 0x2C # rest) = lex (c # (cs @ 0x2C # rest))"
    by (simp add: c(1))
  also have "\<dots> = (case lex_number (c # (cs @ 0x2C # rest)) of None \<Rightarrow> None
     | Some (v, r) \<Rightarrow> cons_token (TNumber v) (lex r))"
    by (rule lex_number_start [OF c(2)])
  also have "c # (cs @ 0x2C # rest) = Number_toString i @ 0x2C # rest"
    by (simp add: c(1))
  finally show ?thesis
    by (simp only: lex_number_toString option.case prod.case)
qed

lemma lex_SerializeJSONObject:
  "lex (SerializeJSONObject expense @ rest) = prepend_tokens (expense_tokens expense) (lex rest)"
  unfolding SerializeJSONObject_def SerializeJSONProperty_def SerializeJSONProperty_id_def
  by (simp only: join_with.simps append_assoc append_Cons append_Nil lex_punctuation
      lex_QuoteJSONString lex_Number_toString cons_token_eq_prepend prepend_prepend
      expense_tokens_def)

lemma lex_elements:
  "lex (join_with 0x2C (map SerializeJSONObject xs) @ 0x5D # rest) =
   prepend_tokens (join_with COMMA (map expense_tokens xs)) (lex (0x5D # rest))"
proof (induction xs rule: induct_list012)
  case 1
  show ?case by (simp add: prepend_tokens_def split: option.splits)
next
  case (2 x)
  show ?case by (simp add: lex_SerializeJSONObject)
next
  case (3 x y zs)
  have "lex (join_with 0x2C (map SerializeJSONObject (x # y # zs)) @ 0x5D # rest) =
        lex (SerializeJSONObject x @ 0x2C # (join_with 0x2C (map SerializeJSONObject (y # zs)) @ 0x5D # rest))"
    by simp
  also have "\<dots> = prepend_tokens (expense_tokens x)
      (cons_token COMMA (lex (join_with 0x2C (map SerializeJSONObject (y # zs)) @ 0x5D # rest)))"
    by (simp only: lex_SerializeJSONObject lex_punctuation)
  also have "\<dots> = prepend_tokens (expense_tokens x)
      (cons_token COMMA (prepend_tokens (join_with COMMA (map expense_tokens (y # zs))) (lex (0x5D # rest))))"
    by (simp only: 3)
  also have "\<dots> = prepend_tokens (join_with COMMA (map expense_tokens (x # y # zs))) (lex (0x5D # rest))"
    by (simp add: cons_token_eq_prepend prepend_prepend)
  finally show ?case .
qed

lemma lex_JSON_stringify:
  "lex (JSON_stringify xs) = Some (LBRACKET # join_with COMMA (map expense_tokens xs) @ [RBRACKET])"
proof -
  have "lex (JSON_stringify xs) =
      cons_token LBRACKET (lex (join_with 0x2C (map SerializeJSONObject xs) @ 0x5D # []))"
    unfolding JSON_stringify_def by (simp only: lex_punctuation)
  also have "\<dots> = cons_token LBRACKET
      (prepend_tokens (join_with COMMA (map expense_tokens xs)) (lex (0x5D # [])))"
    by (simp only: lex_elements)
  also have "lex (0x5D # []) = Some [RBRACKET]"
    by (simp add: lex_punctuation cons_token_def is_whitespace_def)
  finally show ?thesis by (simp add: cons_token_def prepend_tokens_def)
qed

subsection \<open>The value of a saved collection\<close>

lemma not_array_index_keys:
  "array_index (js ''id'') = None" "array_index (js ''amount'') = None"
  "array_index (js ''date'') = None" "array_index (js ''note'') = None"
  by (simp_all add: array_index_def js_def is_digit_def)

lemma steps_append:
  "steps c (ts @ us) = (case steps c ts of None \<Rightarrow> None | Some c' \<Rightarrow> steps c' us)"
  by (induction ts arbitrary: c) (simp_all split: option.splits)

lemma keys_distinct:
  "js ''amount'' \<noteq> js ''id''" "js ''date'' \<noteq> js ''id''" "js ''date'' \<noteq> js ''amount''"
  "js ''note'' \<noteq> js ''id''" "js ''note'' \<noteq> js ''amount''" "js ''note'' \<noteq> js ''date''"
  by (simp_all add: js_def)

lemma steps_expense_tokens:
  "steps (Value st) (expense_tokens expense) = Some (After (js_of_expense expense) st)"
  by (simp add: expense_tokens_def js_of_expense_def CreateDataProperty_def not_array_index_keys
      keys_distinct)

lemma steps_elements:
  "xs \<noteq> [] \<Longrightarrow>
   steps (Value (InArray vs # st)) (join_with COMMA (map expense_tokens xs) @ [RBRACKET]) =
   Some (After (JArr (vs @ map js_of_expense xs)) st)"
proof (induction xs arbitrary: vs rule: induct_list012)
  case 1
  then show ?case by simp
next
  case (2 x)
  show ?case by (simp add: steps_append steps_expense_tokens)
next
  case (3 x y zs)
  have "steps (Value (InArray vs # st)) (join_with COMMA (map expense_tokens (x # y # zs)) @ [RBRACKET]) =
        steps (Value (InArray vs # st))
          (expense_tokens x @ COMMA # (join_with COMMA (map expense_tokens (y # zs)) @ [RBRACKET]))"
    by simp
  also have "\<dots> = steps (Value (InArray (vs @ [js_of_expense x]) # st))
          (join_with COMMA (map expense_tokens (y # zs)) @ [RBRACKET])"
    by (simp add: steps_append steps_expense_tokens del: join_with.simps)
  also have "\<dots> = Some (After (JArr ((vs @ [js_of_expense x]) @ map js_of_expense (y # zs))) st)"
    by (rule 3) simp
  finally show ?case by simp
qed

lemma parse_tokens_expenses:
  "parse_tokens (LBRACKET # join_with COMMA (map expense_tokens xs) @ [RBRACKET]) =
   Some (js_of_expenses xs)"
proof (cases xs)
  case Nil
  then show ?thesis by (simp add: parse_tokens_def js_of_expenses_def)
next
  case (Cons x ys)
  obtain ts where ts: "join_with COMMA (map expense_tokens xs) @ [RBRACKET] = LBRACE # ts"
    using Cons by (cases ys) (simp_all add: expense_tokens_def)
  have "steps (Value []) (LBRACKET # join_with COMMA (map expense_tokens xs) @ [RBRACKET]) =
        steps (ArrayOpen []) (LBRACE # ts)"
    by (simp add: ts)
  also have "\<dots> = steps (Value [InArray []]) (LBRACE # ts)"
    by simp
  also have "\<dots> = Some (After (JArr ([] @ map js_of_expense xs)) [])"
    unfolding ts [symmetric] by (rule steps_elements) (simp add: Cons)
  finally show ?thesis by (simp add: parse_tokens_def js_of_expenses_def)
qed

lemma JSON_parse_stringify: "JSON_parse (JSON_stringify xs) = Some (js_of_expenses xs)"
  by (simp add: JSON_parse_def lex_JSON_stringify parse_tokens_expenses)

lemma JSON_stringify_not_empty: "JSON_stringify xs \<noteq> []"
  by (simp add: JSON_stringify_def)

lemma expense_of_js_of_expense: "expense_of_js (js_of_expense e) = Some e"
  by (simp add: expense_of_js_def js_of_expense_def keys_distinct keys_distinct [symmetric])

lemma expenses_of_js_of_expenses: "expenses_of_js (js_of_expenses xs) = Some xs"
  by (induction xs) (simp_all add: expenses_of_js_def js_of_expenses_def expense_of_js_of_expense)

subsection \<open>Evaluation on the examples\<close>

text \<open>
  \<^verbatim>\<open>JSON.parse\<close> on some texts: values of every kind between white space; a
  trailing comma, a missing comma, a leading zero, a point without digits, an open
  array, a cut literal and the empty text, which are syntax errors; an object with
  a repeated key and an array index among its keys; escapes in a string; a string
  without its closing quote.
\<close>

lemmas lex_eval = JSON_parse_def parse_tokens_def js_def is_whitespace_def is_digit_def
  cons_token_def cons_result_def lex_number_def lex_minus_def lex_int_def lex_frac_def
  lex_exp_def lex_sign_def digits_val_def digit_val_def number_value_def

lemma JSON_parse_examples:
  "JSON_parse (js ''[1, -2.5e1, true, false, null, [], {}]'') =
     Some (JArr [JNum 1, JNum (- 25), JBool True, JBool False, JNull, JArr [], JObj []])"
  "JSON_parse (js '' 1704067200000 '') = Some (JNum 1704067200000)"
  "JSON_parse (js ''[1,]'') = None"
  "JSON_parse (js ''[1 2]'') = None"
  "JSON_parse (js ''01'') = None"
  "JSON_parse (js ''1.'') = None"
  "JSON_parse (js ''[[]'') = None"
  "JSON_parse (js ''nul'') = None"
  "JSON_parse [] = None"
  "JSON_parse (0x7B # 0x22 # js ''a'' @ 0x22 # js '':1,'' @ 0x22 # js ''0'' @ 0x22 # js '':[],'' @
      0x22 # js ''a'' @ 0x22 # js '':2}'') =
     Some (JObj [(js ''0'', JArr []), (js ''a'', JNum 2)])"
  "JSON_parse (0x22 # 0x5C # js ''u0041'' @ [0x5C, 0x6E, 0x22]) = Some (JStr [0x41, 0x0A])"
  "JSON_parse (0x22 # js ''a'') = None"
  by (simp_all add: lex_eval hex4_def hex_val_def unescape_def CreateDataProperty_def
      array_index_def)









subsection \<open>Save and load\<close>

text \<open>
  C7: for every collection, \<^verbatim>\<open>JSON.parse\<close> of the text that \<^verbatim>\<open>JSON.stringify\<close>
  writes for it returns the collection: the load effect, run on the storage that the
  save effect has written, completes without logging and sets \<^verbatim>\<open>expenses\<close> to the
  array of the same records, with the same ids, amounts, dates and notes, in the same
  order (read as an expense list, the loaded value is the list that was saved).
\<close>

theorem save_load_round_trip:
  "JSON_parse (JSON_stringify xs) = Some (js_of_expenses xs) \<and>
   useEffect_load (Inr (fst (useEffect_save True xs stored))) (JArr []) =
     Inr (js_of_expenses xs, []) \<and>
   expenses_of_js (js_of_expenses xs) = Some xs"
  by (simp add: JSON_parse_stringify JSON_stringify_not_empty useEffect_load_def load_try_def
      useEffect_save_def expenses_of_js_of_expenses)

text \<open>
  C7 at the collection of two expenses.
\<close>

theorem save_load_round_trip_witness:
  "useEffect_save True two_expenses None = (Some (JSON_stringify two_expenses), []) \<and>
   useEffect_load (Inr (Some (JSON_stringify two_expenses))) (JArr []) =
     Inr (JArr [JObj [(js ''id'', JNum 1704153600000), (js ''amount'', JStr (js ''3.20'')),
                      (js ''date'', JStr (js ''2024-01-02'')), (js ''note'', JStr (js ''Coffee''))],
                JObj [(js ''id'', JNum 1704067200000), (js ''amount'', JStr (js ''12.50'')),
                      (js ''date'', JStr (js ''2024-01-01'')), (js ''note'', JStr (js ''Lunch''))]],
          [])"
  using save_load_round_trip [of two_expenses None]
  by (simp add: useEffect_save_def js_of_expenses_def js_of_expense_def two_expenses_def
      newExpense_def coffee_def lunch_def)




end
